theory Spec2Isabelle
  imports Complex_Main "HOL-Library.Sublist"
begin

section \<open>RDF terms\<close>

text \<open>
  The service reads an rdflib graph. Three things of an rdflib term are observed by the
  code: whether it is a \<open>Literal\<close> (\<open>isinstance\<close>), the \<open>language\<close> attribute of a
  literal, and its text (\<open>str(term)\<close>). A literal carries either no tag, a language tag,
  or a datatype IRI; rdflib refuses a literal with both a language and a datatype.
  Strings are lists of 8-bit characters.
\<close>

datatype literal_tag = Plain | Lang string | Datatype string

datatype node = URIRef string | BNode string | Literal string literal_tag

fun language :: "literal_tag \<Rightarrow> string option" where
  "language Plain = None"
| "language (Lang l) = Some l"
| "language (Datatype d) = None"

fun node_str :: "node \<Rightarrow> string" where
  "node_str (URIRef s) = s"
| "node_str (BNode s) = s"
| "node_str (Literal s tag) = s"

text \<open>
  Python's \<open>a or b\<close> returns \<open>a\<close> when \<open>a\<close> is truthy. \<open>None\<close> is falsy. An rdflib
  term is a \<open>str\<close> subclass, so an IRI or blank node is truthy iff its text is non-empty.
  \<open>Literal.__bool__\<close> returns the truth value of the literal's converted Python value
  when there is one and \<open>len(self) != 0\<close> otherwise; for a literal without datatype the
  value is its text, so it is truthy iff the text is non-empty. For a literal with a
  datatype the value comes from rdflib's conversion table for that datatype, which is
  not part of this repository: \<open>tv d s\<close> stands for the truth value rdflib gives a
  literal with datatype \<open>d\<close> and lexical form \<open>s\<close>.
\<close>

type_synonym typed_truth = "string \<Rightarrow> string \<Rightarrow> bool"

fun truthy :: "typed_truth \<Rightarrow> node \<Rightarrow> bool" where
  "truthy tv (URIRef s) = (s \<noteq> [])"
| "truthy tv (BNode s) = (s \<noteq> [])"
| "truthy tv (Literal s Plain) = (s \<noteq> [])"
| "truthy tv (Literal s (Lang l)) = (s \<noteq> [])"
| "truthy tv (Literal s (Datatype d)) = tv d s"

definition py_or :: "typed_truth \<Rightarrow> node option \<Rightarrow> node option \<Rightarrow> node option" where
  "py_or tv a b = (case a of None \<Rightarrow> b | Some x \<Rightarrow> if truthy tv x then a else b)"

section \<open>The label and definition selector\<close>

text \<open>
  \<open>_select_lang_literal\<close>: the loop over the candidates, as a function returning the
  pair \<open>(best_exact, best_langless)\<close> the loop leaves behind. A candidate that is not a
  literal is skipped; an exact match ends the loop (\<open>break\<close>); a literal without
  language overwrites the fallback.
\<close>

fun select_scan :: "node list \<Rightarrow> string \<Rightarrow> node option \<Rightarrow> node option \<times> node option" where
  "select_scan [] lang best_langless = (None, best_langless)"
| "select_scan (lit # rest) lang best_langless =
     (case lit of
        Literal s tag \<Rightarrow>
          if language tag = Some lang then (Some lit, best_langless)
          else if language tag = None then select_scan rest lang (Some lit)
          else select_scan rest lang best_langless
      | _ \<Rightarrow> select_scan rest lang best_langless)"

definition select_lang_literal :: "typed_truth \<Rightarrow> node list \<Rightarrow> string \<Rightarrow> node option" where
  "select_lang_literal tv literals lang =
     (case select_scan literals lang None of
        (best_exact, best_langless) \<Rightarrow>
          py_or tv (py_or tv best_exact best_langless)
            (case literals of [] \<Rightarrow> None | first # rest \<Rightarrow> Some first))"

text \<open>The two descriptions the selector is measured against.\<close>

definition has_lang :: "string \<Rightarrow> node \<Rightarrow> bool" where
  "has_lang lang n = (case n of Literal s tag \<Rightarrow> language tag = Some lang | _ \<Rightarrow> False)"

definition is_langless :: "node \<Rightarrow> bool" where
  "is_langless n = (case n of Literal s tag \<Rightarrow> language tag = None | _ \<Rightarrow> False)"

definition first_exact :: "string \<Rightarrow> node list \<Rightarrow> node option" where
  "first_exact lang literals = find (has_lang lang) literals"

definition last_langless :: "node list \<Rightarrow> node option" where
  "last_langless literals = find is_langless (rev literals)"

section \<open>Graphs\<close>

text \<open>
  An rdflib graph is a set of triples, enumerated in a fixed storage order: a list of
  triples without repetition. \<open>Graph.add\<close> of a triple already present changes
  nothing. \<open>g.subjects(p, o)\<close> and \<open>g.objects(s, p)\<close> enumerate the matching triples
  of the store.
\<close>

type_synonym triple = "node \<times> node \<times> node"

type_synonym rdf_graph = "triple list"

definition graph_add :: "triple \<Rightarrow> rdf_graph \<Rightarrow> rdf_graph" where
  "graph_add t g = (if t \<in> set g then g else g @ [t])"

definition subjects :: "rdf_graph \<Rightarrow> node \<Rightarrow> node \<Rightarrow> node list" where
  "subjects g p ob = map fst (filter (\<lambda>(s', p', o'). p' = p \<and> o' = ob) g)"

definition objects :: "rdf_graph \<Rightarrow> node \<Rightarrow> node \<Rightarrow> node list" where
  "objects g s p = map (\<lambda>(s', p', o'). o') (filter (\<lambda>(s', p', o'). s' = s \<and> p' = p) g)"

definition RDF_type :: node where
  "RDF_type = URIRef ''http://www.w3.org/1999/02/22-rdf-syntax-ns#type''"

definition SKOS_Concept :: node where
  "SKOS_Concept = URIRef ''http://www.w3.org/2004/02/skos/core#Concept''"


definition SKOS_prefLabel :: node where
  "SKOS_prefLabel = URIRef ''http://www.w3.org/2004/02/skos/core#prefLabel''"

definition SKOS_altLabel :: node where
  "SKOS_altLabel = URIRef ''http://www.w3.org/2004/02/skos/core#altLabel''"

definition SKOS_definition :: node where
  "SKOS_definition = URIRef ''http://www.w3.org/2004/02/skos/core#definition''"

definition SKOS_broader :: node where
  "SKOS_broader = URIRef ''http://www.w3.org/2004/02/skos/core#broader''"

definition SKOS_narrower :: node where
  "SKOS_narrower = URIRef ''http://www.w3.org/2004/02/skos/core#narrower''"

definition SKOS_related :: node where
  "SKOS_related = URIRef ''http://www.w3.org/2004/02/skos/core#related''"

definition SKOS_inScheme :: node where
  "SKOS_inScheme = URIRef ''http://www.w3.org/2004/02/skos/core#inScheme''"

definition SKOS_notation :: node where
  "SKOS_notation = URIRef ''http://www.w3.org/2004/02/skos/core#notation''"


section \<open>Strings\<close>

text \<open>
  \<open>str.lower\<close>, \<open>str.strip\<close>, \<open>str.rstrip("/")\<close>, \<open>str.replace(" ", "-")\<close>,
  \<open>str.split("|")\<close> and \<open>urllib.parse.quote(_, safe="")\<close> on 8-bit strings. On ASCII
  text they are Python's functions. A character outside ASCII is carried as its UTF-8
  bytes: \<open>quote\<close> percent-encodes them, as Python does, while \<open>lower\<close> and \<open>strip\<close>
  leave them alone, where Python also lowercases letters and strips spaces outside
  ASCII. No format alias and no separator of the code contains such a character.
  \<open>x in y\<close> on strings is \<^const>\<open>sublist\<close>.
\<close>

definition lower_char :: "char \<Rightarrow> char" where
  "lower_char c =
     (let n = (of_char c :: nat) in if 65 \<le> n \<and> n \<le> 90 then char_of (n + 32) else c)"

definition lower :: "string \<Rightarrow> string" where
  "lower s = map lower_char s"

definition is_space :: "char \<Rightarrow> bool" where
  "is_space c = (let n = (of_char c :: nat) in (9 \<le> n \<and> n \<le> 13) \<or> (28 \<le> n \<and> n \<le> 32))"

definition strip :: "string \<Rightarrow> string" where
  "strip s = rev (dropWhile is_space (rev (dropWhile is_space s)))"







section \<open>The graph service\<close>

text \<open>
  \<open>SKOSGraphService\<close>: the default language, the current graph and the modification
  time recorded at the last load. The path is fixed at construction; the file found
  there is an argument of every operation: it is absent, or it has a modification
  time and a content, which rdflib's Turtle parser either rejects or reads as a
  sequence of statements. A call sees one file: the file does not change between the
  reads of one call. The lock and concurrent callers are not modelled.
\<close>

record service =
  default_language :: string
  graph :: "rdf_graph option"
  last_loaded_mtime :: "real option"

datatype turtle = Malformed | Statements "triple list"

datatype source_file = Absent | Present real turtle

datatype error = ParseError | AssertionError | ValueError string

definition new_service :: "string \<Rightarrow> service" where
  "new_service lang = \<lparr>default_language = lang, graph = None, last_loaded_mtime = None\<rparr>"

text \<open>
  \<open>_ensure_loaded\<close>. An exception leaves the object as it was when it was raised, so
  the state is returned beside the error. \<open>g.parse\<close> adds the file's statements to the
  fresh graph \<open>g\<close>.
\<close>

definition getmtime :: "source_file \<Rightarrow> real option" where
  "getmtime f = (case f of Absent \<Rightarrow> None | Present m content \<Rightarrow> Some m)"

definition ensure_loaded :: "source_file \<Rightarrow> service \<Rightarrow> error option \<times> service" where
  "ensure_loaded f s =
     (let mtime = getmtime f in
        if graph s \<noteq> None \<and> last_loaded_mtime s = mtime then (None, s)
        else
          (case f of
             Absent \<Rightarrow> (None, s\<lparr>graph := Some [], last_loaded_mtime := mtime\<rparr>)
           | Present m Malformed \<Rightarrow> (Some ParseError, s)
           | Present m (Statements ts) \<Rightarrow>
               (None, s\<lparr>graph := Some (fold graph_add ts []), last_loaded_mtime := mtime\<rparr>)))"

definition reload :: "source_file \<Rightarrow> service \<Rightarrow> error option \<times> service" where
  "reload f s = ensure_loaded f (s\<lparr>graph := None, last_loaded_mtime := None\<rparr>)"

definition get_graph :: "source_file \<Rightarrow> service \<Rightarrow> (error + rdf_graph) \<times> service" where
  "get_graph f s =
     (case ensure_loaded f s of
        (Some e, s') \<Rightarrow> (Inl e, s')
      | (None, s') \<Rightarrow>
          (case graph s' of None \<Rightarrow> (Inl AssertionError, s') | Some g \<Rightarrow> (Inr g, s')))"

text \<open>The states the service can be in: constructed, then any sequence of calls.\<close>

inductive reachable :: "service \<Rightarrow> bool" where
  constructed: "reachable (new_service lang)"
| after_ensure_loaded: "reachable s \<Longrightarrow> reachable (snd (ensure_loaded f s))"
| after_reload: "reachable s \<Longrightarrow> reachable (snd (reload f s))"

section \<open>Query operations\<close>

record concept_summary =
  iri :: string
  pref_label :: "string option"
  definition_text :: "string option"

text \<open>\<open>language or self._default_language\<close>: \<open>None\<close> and the empty string are falsy.\<close>

definition or_default :: "string option \<Rightarrow> string \<Rightarrow> string" where
  "or_default lang d = (case lang of None \<Rightarrow> d | Some l \<Rightarrow> if l = [] then d else l)"

text \<open>
  \<open>xs[start:stop]\<close>: a negative index counts from the end, and both ends are clamped
  to the list.
\<close>

definition py_slice :: "'a list \<Rightarrow> int \<Rightarrow> int \<Rightarrow> 'a list" where
  "py_slice xs start stop =
     (let n = int (length xs);
          clamp = (\<lambda>i. if i < 0 then max (i + n) 0 else min i n);
          a = clamp start;
          b = clamp stop
      in take (nat (b - a)) (drop (nat a) xs))"

definition get_best_label :: "typed_truth \<Rightarrow> rdf_graph \<Rightarrow> node \<Rightarrow> string \<Rightarrow> string option" where
  "get_best_label tv g subject lang =
     map_option node_str (select_lang_literal tv (objects g subject SKOS_prefLabel) lang)"

definition get_best_definition :: "typed_truth \<Rightarrow> rdf_graph \<Rightarrow> node \<Rightarrow> string \<Rightarrow> string option" where
  "get_best_definition tv g subject lang =
     map_option node_str (select_lang_literal tv (objects g subject SKOS_definition) lang)"

definition list_concepts ::
  "typed_truth \<Rightarrow> source_file \<Rightarrow> service \<Rightarrow> int \<Rightarrow> int \<Rightarrow> string option
     \<Rightarrow> (error + concept_summary list \<times> nat) \<times> service" where
  "list_concepts tv f s limit offset lang =
     (case get_graph f s of
        (Inl e, s') \<Rightarrow> (Inl e, s')
      | (Inr g, s') \<Rightarrow>
          (let language = or_default lang (default_language s');
               all_concepts = subjects g RDF_type SKOS_Concept;
               total = length all_concepts
           in (Inr (map (\<lambda>subject.
                      \<lparr>iri = node_str subject,
                       pref_label = get_best_label tv g subject language,
                       definition_text = get_best_definition tv g subject language\<rparr>)
                    (py_slice all_concepts offset (offset + limit)), total), s')))"

text \<open>
  \<open>search_concepts\<close>. The inner loop over one concept's labels stops at the first
  label that matches; the outer loop appends the concept when a label matched and then
  tests \<open>len(results) >= limit\<close>.
\<close>

fun match_label :: "string \<Rightarrow> string \<Rightarrow> node list \<Rightarrow> string option" where
  "match_label lang lower_q [] = None"
| "match_label lang lower_q (label # rest) =
     (case label of
        Literal label_text tag \<Rightarrow>
          if (language tag = None \<or> language tag = Some lang) \<and> sublist lower_q (lower label_text)
          then Some label_text
          else match_label lang lower_q rest
      | _ \<Rightarrow> match_label lang lower_q rest)"

fun search_loop ::
  "typed_truth \<Rightarrow> rdf_graph \<Rightarrow> string \<Rightarrow> string \<Rightarrow> int \<Rightarrow> node list
     \<Rightarrow> concept_summary list \<Rightarrow> concept_summary list" where
  "search_loop tv g lang lower_q limit [] results = results"
| "search_loop tv g lang lower_q limit (subject # rest) results =
     (let labels = objects g subject SKOS_prefLabel @ objects g subject SKOS_altLabel;
          results' =
            (case match_label lang lower_q labels of
               None \<Rightarrow> results
             | Some matched_label \<Rightarrow>
                 results @
                   [\<lparr>iri = node_str subject,
                     pref_label = Some matched_label,
                     definition_text = get_best_definition tv g subject lang\<rparr>])
      in if int (length results') \<ge> limit then results'
         else search_loop tv g lang lower_q limit rest results')"

definition search_concepts ::
  "typed_truth \<Rightarrow> source_file \<Rightarrow> service \<Rightarrow> string \<Rightarrow> int \<Rightarrow> string option
     \<Rightarrow> (error + concept_summary list) \<times> service" where
  "search_concepts tv f s query limit lang =
     (case get_graph f s of
        (Inl e, s') \<Rightarrow> (Inl e, s')
      | (Inr g, s') \<Rightarrow>
          (let language = or_default lang (default_language s');
               lower_q = lower query
           in (Inr (search_loop tv g language lower_q limit
                      (subjects g RDF_type SKOS_Concept) []), s')))"

text \<open>
  \<open>_get_literals\<close> and \<open>get_concept_detail\<close>. The dictionaries are maps; \<open>None\<close> is the
  "not found" result.
\<close>

fun get_literals_loop :: "node list \<Rightarrow> (string \<rightharpoonup> string list) \<Rightarrow> (string \<rightharpoonup> string list)" where
  "get_literals_loop [] values = values"
| "get_literals_loop (lit # rest) values =
     (case lit of
        Literal s tag \<Rightarrow>
          (let lang = (case language tag of None \<Rightarrow> ''und''
                       | Some l \<Rightarrow> if l = [] then ''und'' else l)
           in get_literals_loop rest
                (values(lang \<mapsto> (case values lang of None \<Rightarrow> [] | Some vs \<Rightarrow> vs) @ [s])))
      | _ \<Rightarrow> get_literals_loop rest values)"

definition get_literals :: "rdf_graph \<Rightarrow> node \<Rightarrow> node \<Rightarrow> (string \<rightharpoonup> string list)" where
  "get_literals g subject predicate = get_literals_loop (objects g subject predicate) Map.empty"

record concept_detail =
  detail_iri :: string
  detail_prefLabel :: "string \<rightharpoonup> string list"
  detail_altLabel :: "string \<rightharpoonup> string list"
  detail_definition :: "string \<rightharpoonup> string list"
  detail_broader :: "string list"
  detail_narrower :: "string list"
  detail_related :: "string list"
  detail_inScheme :: "string list"
  detail_notation :: "string list"
  detail_bestPrefLabel :: "string option"
  detail_bestDefinition :: "string option"

definition get_concept_detail ::
  "typed_truth \<Rightarrow> source_file \<Rightarrow> service \<Rightarrow> string \<Rightarrow> string option
     \<Rightarrow> (error + concept_detail option) \<times> service" where
  "get_concept_detail tv f s concept_iri lang =
     (case get_graph f s of
        (Inl e, s') \<Rightarrow> (Inl e, s')
      | (Inr g, s') \<Rightarrow>
          (let language = or_default lang (default_language s');
               subject = URIRef concept_iri
           in if (subject, RDF_type, SKOS_Concept) \<notin> set g then (Inr None, s')
              else
                (Inr (Some
                   \<lparr>detail_iri = concept_iri,
                    detail_prefLabel = get_literals g subject SKOS_prefLabel,
                    detail_altLabel = get_literals g subject SKOS_altLabel,
                    detail_definition = get_literals g subject SKOS_definition,
                    detail_broader = map node_str (objects g subject SKOS_broader),
                    detail_narrower = map node_str (objects g subject SKOS_narrower),
                    detail_related = map node_str (objects g subject SKOS_related),
                    detail_inScheme = map node_str (objects g subject SKOS_inScheme),
                    detail_notation = map node_str (objects g subject SKOS_notation),
                    detail_bestPrefLabel = get_best_label tv g subject language,
                    detail_bestDefinition = get_best_definition tv g subject language\<rparr>), s')))"

text \<open>
  \<open>serialize\<close>. rdflib's serializers are not part of this repository: \<open>ser name g\<close>
  stands for the text \<open>g.serialize(format=name)\<close> returns (for \<open>json-ld\<close>, with
  \<open>indent=2\<close>).
\<close>

type_synonym serializer = "string \<Rightarrow> rdf_graph \<Rightarrow> string"

definition serialize ::
  "serializer \<Rightarrow> source_file \<Rightarrow> service \<Rightarrow> string \<Rightarrow> (error + string \<times> string) \<times> service" where
  "serialize ser f s format =
     (case get_graph f s of
        (Inl e, s') \<Rightarrow> (Inl e, s')
      | (Inr g, s') \<Rightarrow>
          (let fmt = lower format in
             if fmt \<in> {''ttl'', ''turtle''} then (Inr (ser ''turtle'' g, ''text/turtle''), s')
             else if fmt \<in> {''jsonld'', ''json-ld''}
               then (Inr (ser ''json-ld'' g, ''application/ld+json''), s')
             else if fmt \<in> {''xml'', ''rdf'', ''rdfxml'', ''rdf/xml''}
               then (Inr (ser ''xml'' g, ''application/rdf+xml''), s')
             else if fmt \<in> {''nt'', ''ntriples'', ''n-triples''}
               then (Inr (ser ''nt'' g, ''application/n-triples''), s')
             else (Inl (ValueError (''Unsupported format: '' @ format)), s')))"

section \<open>The CSV import tool\<close>

text \<open>
  \<open>import_csv_to_skos\<close>. \<open>csv.DictReader\<close> hands the loop one dictionary per row; a row
  is its \<open>get\<close>: the cell under a column name, or \<open>None\<close>. \<open>a or b\<close> on cells takes \<open>b\<close>
  when \<open>a\<close> is \<open>None\<close> or empty. \<open>Literal(text, lang=language)\<close> makes a literal tagged
  with the language; rdflib reads an empty language as no language.
\<close>

type_synonym row = "string \<Rightarrow> string option"

definition cell_or :: "string option \<Rightarrow> string \<Rightarrow> string" where
  "cell_or a b = (case a of None \<Rightarrow> b | Some v \<Rightarrow> if v = [] then b else v)"




definition row_label :: "row \<Rightarrow> string" where
  "row_label r = strip (cell_or (r ''prefLabel'') (cell_or (r ''label'') (cell_or (r ''term'') [])))"








section \<open>Stand-ins for evaluation\<close>

text \<open>
  Concrete values for the two library tables, used where a statement is evaluated at a
  concrete input: an rdflib in which no datatype has a converter (a typed literal is
  truthy iff its text is non-empty), and a serializer whose output is the name of the
  format it was asked for.
\<close>

definition unknown_datatypes :: typed_truth where
  "unknown_datatypes d s = (s \<noteq> [])"

definition format_name_only :: serializer where
  "format_name_only name g = name"

section \<open>What every state of the service satisfies\<close>

text \<open>
  The invariant of the service: a loaded graph has no repeated triple, and a
  graph recorded with no modification time is the empty graph of a missing file.
\<close>

definition loaded_ok :: "service \<Rightarrow> bool" where
  "loaded_ok s =
     (case graph s of
        None \<Rightarrow> True
      | Some g \<Rightarrow> distinct g \<and> (last_loaded_mtime s = None \<longrightarrow> g = []))"

section \<open>The summary of one concept\<close>

text \<open>
  The summary the selector gives for one concept: its IRI, the selector's choice among
  its \<open>prefLabel\<close> values and the selector's choice among its \<open>definition\<close> values.
\<close>

definition summary_for :: "typed_truth \<Rightarrow> rdf_graph \<Rightarrow> string \<Rightarrow> node \<Rightarrow> concept_summary" where
  "summary_for tv g lang subject =
     \<lparr>iri = node_str subject,
      pref_label = map_option node_str (select_lang_literal tv (objects g subject SKOS_prefLabel) lang),
      definition_text =
        map_option node_str (select_lang_literal tv (objects g subject SKOS_definition) lang)\<rparr>"

section \<open>What a search result is\<close>

text \<open>
  A label matches a query when it is a literal without language or in the requested
  language whose lowercased text contains the lowercased query. The result a concept
  contributes to a search, if any, carries the text of its first matching label.
\<close>

definition label_matches :: "string \<Rightarrow> string \<Rightarrow> node \<Rightarrow> bool" where
  "label_matches lang lower_q label =
     (case label of
        Literal label_text tag \<Rightarrow>
          (language tag = None \<or> language tag = Some lang) \<and> sublist lower_q (lower label_text)
      | _ \<Rightarrow> False)"

definition search_hit :: "typed_truth \<Rightarrow> rdf_graph \<Rightarrow> string \<Rightarrow> string \<Rightarrow> node \<Rightarrow> concept_summary option" where
  "search_hit tv g lang lower_q subject =
     map_option
       (\<lambda>matched_label.
          \<lparr>iri = node_str subject,
           pref_label = Some matched_label,
           definition_text =
             map_option node_str (select_lang_literal tv (objects g subject SKOS_definition) lang)\<rparr>)
       (match_label lang lower_q (objects g subject SKOS_prefLabel @ objects g subject SKOS_altLabel))"

section \<open>What one row states\<close>



section \<open>Example rows\<close>





section \<open>Selector: what holds\<close>

lemma find_append_cases:
  "find P (xs @ ys) = (case find P xs of None \<Rightarrow> find P ys | Some x \<Rightarrow> Some x)"
  by (induction xs) auto

lemma select_scan_no_exact:
  "find (has_lang lang) literals = None \<Longrightarrow>
   select_scan literals lang acc =
     (None, case find is_langless (rev literals) of None \<Rightarrow> acc | Some x \<Rightarrow> Some x)"
proof (induction literals arbitrary: acc)
  case Nil
  then show ?case by simp
next
  case (Cons lit rest)
  then show ?case
    by (cases lit)
      (auto simp: has_lang_def is_langless_def find_append_cases
        split: option.splits if_splits)
qed

lemma select_scan_exact:
  "find (has_lang lang) literals = Some x \<Longrightarrow> fst (select_scan literals lang acc) = Some x"
proof (induction literals arbitrary: acc)
  case Nil
  then show ?case by simp
next
  case (Cons lit rest)
  then show ?case
    by (cases lit) (auto simp: has_lang_def split: if_splits)
qed

lemma select_exact_truthy:
  assumes "first_exact lang literals = Some x" and "truthy tv x"
  shows "select_lang_literal tv literals lang = Some x"
proof -
  have "fst (select_scan literals lang None) = Some x"
    using assms(1) by (simp add: first_exact_def select_scan_exact)
  then obtain bl where "select_scan literals lang None = (Some x, bl)"
    by (cases "select_scan literals lang None") auto
  with assms(2) show ?thesis
    by (simp add: select_lang_literal_def py_or_def)
qed

lemma select_langless_truthy:
  assumes "first_exact lang literals = None" and "last_langless literals = Some x"
    and "truthy tv x"
  shows "select_lang_literal tv literals lang = Some x"
  using assms
  by (simp add: select_lang_literal_def first_exact_def last_langless_def
      select_scan_no_exact py_or_def)

lemma select_first_candidate:
  assumes "first_exact lang literals = None" and "last_langless literals = None"
  shows "select_lang_literal tv literals lang =
         (case literals of [] \<Rightarrow> None | first # rest \<Rightarrow> Some first)"
  using assms
  by (simp add: select_lang_literal_def first_exact_def last_langless_def
      select_scan_no_exact py_or_def)

section \<open>Selector: the claims\<close>

text \<open>
  C1. The claim: when some candidate's language tag equals the requested language, the
  selector returns the first such candidate. The code combines its two finds with
  \<open>or\<close>, which tests truth and not \<open>is None\<close>: an exact match with empty text is falsy
  and is passed over. With the candidates \<open>"Apple"\<close> (no language) and \<open>""@en\<close> and the
  requested language \<open>en\<close>, the exact match \<open>""@en\<close> is found and the language-less
  \<open>"Apple"\<close> is returned.
\<close>

theorem select_exact_empty_text_passed_over:
  "first_exact ''en'' [Literal ''Apple'' Plain, Literal '''' (Lang ''en'')]
     = Some (Literal '''' (Lang ''en'')) \<and>
   select_lang_literal tv [Literal ''Apple'' Plain, Literal '''' (Lang ''en'')] ''en''
     = Some (Literal ''Apple'' Plain)"
  by (simp add: first_exact_def has_lang_def select_lang_literal_def py_or_def)

text \<open>
  C2. The claim: with no exact match the selector returns the last language-less
  literal, else the first candidate, else nothing. The same \<open>or\<close> passes over a
  language-less literal with empty text: with the candidates \<open>"Pomme"@fr\<close> and \<open>""\<close> and
  the requested language \<open>en\<close> there is no exact match, the last language-less literal
  is \<open>""\<close>, and the first candidate \<open>"Pomme"@fr\<close> is returned.
\<close>

theorem select_langless_empty_text_passed_over:
  "first_exact ''en'' [Literal ''Pomme'' (Lang ''fr''), Literal '''' Plain] = None \<and>
   last_langless [Literal ''Pomme'' (Lang ''fr''), Literal '''' Plain]
     = Some (Literal '''' Plain) \<and>
   select_lang_literal tv [Literal ''Pomme'' (Lang ''fr''), Literal '''' Plain] ''en''
     = Some (Literal ''Pomme'' (Lang ''fr''))"
  by (simp add: first_exact_def last_langless_def has_lang_def is_langless_def
      select_lang_literal_def py_or_def)

section \<open>Serialization formats\<close>

lemma get_graph_fresh:
  "get_graph (Present m (Statements ts)) (new_service lang) =
     (Inr (fold graph_add ts []),
      \<lparr>default_language = lang, graph = Some (fold graph_add ts []), last_loaded_mtime = Some m\<rparr>)"
  by (simp add: get_graph_def ensure_loaded_def new_service_def getmtime_def)

lemma lower_RDF_XML: "lower ''RDF/XML'' = ''rdf/xml''"
  by code_simp

lemma lower_rdf_xml_hyphen: "lower ''rdf-xml'' = ''rdf-xml''"
  by code_simp

text \<open>
  C3, as the code has it. Once the graph is loaded, \<open>serialize\<close> lowercases the format
  name and compares it with four alias sets: \<open>ttl, turtle\<close> give \<open>text/turtle\<close>;
  \<open>jsonld, json-ld\<close> give \<open>application/ld+json\<close>; \<open>xml, rdf, rdfxml, rdf/xml\<close> give
  \<open>application/rdf+xml\<close>; \<open>nt, ntriples, n-triples\<close> give \<open>application/n-triples\<close>; each
  payload is the serializer's output for the graph. Every other name raises
  \<open>ValueError\<close> with a message that contains the name as it was given, and there is no
  payload. The RDF/XML alias is written with a slash, not with a hyphen.
\<close>

theorem serialize_dispatch:
  assumes "get_graph f s = (Inr g, s')"
  shows
    "(lower format \<in> {''ttl'', ''turtle''} \<longrightarrow>
        serialize ser f s format = (Inr (ser ''turtle'' g, ''text/turtle''), s')) \<and>
     (lower format \<in> {''jsonld'', ''json-ld''} \<longrightarrow>
        serialize ser f s format = (Inr (ser ''json-ld'' g, ''application/ld+json''), s')) \<and>
     (lower format \<in> {''xml'', ''rdf'', ''rdfxml'', ''rdf/xml''} \<longrightarrow>
        serialize ser f s format = (Inr (ser ''xml'' g, ''application/rdf+xml''), s')) \<and>
     (lower format \<in> {''nt'', ''ntriples'', ''n-triples''} \<longrightarrow>
        serialize ser f s format = (Inr (ser ''nt'' g, ''application/n-triples''), s')) \<and>
     (lower format \<notin> {''ttl'', ''turtle'', ''jsonld'', ''json-ld'', ''xml'', ''rdf'', ''rdfxml'',
                        ''rdf/xml'', ''nt'', ''ntriples'', ''n-triples''} \<longrightarrow>
        serialize ser f s format = (Inl (ValueError (''Unsupported format: '' @ format)), s') \<and>
        sublist format (''Unsupported format: '' @ format))"
proof -
  have msg: "sublist format (''Unsupported format: '' @ format)"
    by (rule sublist_append_leftI)
  have rest: "lower format \<notin> {''ttl'', ''turtle'', ''jsonld'', ''json-ld'', ''xml'', ''rdf'',
        ''rdfxml'', ''rdf/xml'', ''nt'', ''ntriples'', ''n-triples''} \<Longrightarrow>
      serialize ser f s format = (Inl (ValueError (''Unsupported format: '' @ format)), s')"
    using assms by (simp add: serialize_def Let_def)
  show ?thesis
    using assms msg rest by (simp add: serialize_def Let_def)
qed

theorem serialize_dispatch_witness:
  "get_graph (Present 1 (Statements [])) (new_service ''en'') =
     (Inr [], \<lparr>default_language = ''en'', graph = Some [], last_loaded_mtime = Some 1\<rparr>) \<and>
   lower ''RDF/XML'' \<in> {''xml'', ''rdf'', ''rdfxml'', ''rdf/xml''} \<and>
   serialize format_name_only (Present 1 (Statements [])) (new_service ''en'') ''RDF/XML'' =
     (Inr (''xml'', ''application/rdf+xml''),
      \<lparr>default_language = ''en'', graph = Some [], last_loaded_mtime = Some 1\<rparr>)"
proof -
  have h: "get_graph (Present 1 (Statements [])) (new_service ''en'') =
     (Inr [], \<lparr>default_language = ''en'', graph = Some [], last_loaded_mtime = Some 1\<rparr>)"
    by (simp add: get_graph_fresh)
  have a: "lower ''RDF/XML'' \<in> {''xml'', ''rdf'', ''rdfxml'', ''rdf/xml''}"
    by (simp add: lower_RDF_XML)
  from serialize_dispatch [OF h, of "''RDF/XML''" format_name_only] a h
  show ?thesis by (simp add: format_name_only_def lower_RDF_XML)
qed

text \<open>
  C3, as the claim has it, lists \<open>rdf-xml\<close> among the RDF/XML aliases. The code does not
  know that name: on a loaded, empty graph \<open>serialize("rdf-xml")\<close> raises \<open>ValueError\<close>.
\<close>

theorem serialize_rdf_hyphen_xml_unsupported:
  "serialize format_name_only (Present 1 (Statements [])) (new_service ''en'') ''rdf-xml'' =
     (Inl (ValueError ''Unsupported format: rdf-xml''),
      \<lparr>default_language = ''en'', graph = Some [], last_loaded_mtime = Some 1\<rparr>)"
  by (simp add: serialize_def get_graph_fresh lower_rdf_xml_hyphen)

section \<open>Loading\<close>

lemma distinct_graph_add: "distinct g \<Longrightarrow> distinct (graph_add t g)"
  by (simp add: graph_add_def)

lemma distinct_fold_graph_add: "distinct g \<Longrightarrow> distinct (fold graph_add ts g)"
  by (induction ts arbitrary: g) (simp_all add: distinct_graph_add)



lemma ensure_loaded_unchanged:
  "graph s \<noteq> None \<Longrightarrow> last_loaded_mtime s = getmtime f \<Longrightarrow> ensure_loaded f s = (None, s)"
  by (simp add: ensure_loaded_def)

lemma ensure_loaded_load:
  "\<not> (graph s \<noteq> None \<and> last_loaded_mtime s = getmtime f) \<Longrightarrow>
   ensure_loaded f s =
     (case f of
        Absent \<Rightarrow> (None, s\<lparr>graph := Some [], last_loaded_mtime := None\<rparr>)
      | Present m Malformed \<Rightarrow> (Some ParseError, s)
      | Present m (Statements ts) \<Rightarrow>
          (None, s\<lparr>graph := Some (fold graph_add ts []), last_loaded_mtime := Some m\<rparr>))"
  by (auto simp: ensure_loaded_def getmtime_def split: source_file.splits turtle.splits)

lemma loaded_ok_ensure_loaded:
  assumes "loaded_ok s"
  shows "loaded_ok (snd (ensure_loaded f s))"
proof (cases "graph s \<noteq> None \<and> last_loaded_mtime s = getmtime f")
  case True
  with assms show ?thesis by (simp add: ensure_loaded_unchanged)
next
  case False
  with assms show ?thesis
    by (auto simp: ensure_loaded_load loaded_ok_def distinct_fold_graph_add
        split: source_file.splits turtle.splits option.splits)
qed

lemma loaded_ok_reload: "loaded_ok (snd (reload f s))"
proof -
  have "loaded_ok (s\<lparr>graph := None, last_loaded_mtime := None\<rparr>)"
    by (simp add: loaded_ok_def)
  then show ?thesis
    unfolding reload_def by (rule loaded_ok_ensure_loaded)
qed

lemma reachable_loaded_ok: "reachable s \<Longrightarrow> loaded_ok s"
proof (induction rule: reachable.induct)
  case (constructed lang)
  show ?case by (simp add: loaded_ok_def new_service_def)
next
  case (after_ensure_loaded s f)
  then show ?case by (simp add: loaded_ok_ensure_loaded)
next
  case (after_reload s f)
  show ?case by (rule loaded_ok_reload)
qed

lemma ensure_loaded_absent:
  assumes "reachable s"
  shows "ensure_loaded Absent s = (None, s\<lparr>graph := Some [], last_loaded_mtime := None\<rparr>)"
proof (cases "graph s \<noteq> None \<and> last_loaded_mtime s = None")
  case True
  then obtain g where g: "graph s = Some g" by auto
  with True reachable_loaded_ok [OF assms] have "g = []"
    by (simp add: loaded_ok_def)
  with g True have "s\<lparr>graph := Some [], last_loaded_mtime := None\<rparr> = s" by simp
  with True show ?thesis by (simp add: ensure_loaded_def getmtime_def)
next
  case False
  then show ?thesis by (auto simp: ensure_loaded_def getmtime_def)
qed

text \<open>
  C7. When the source file does not exist, \<open>_ensure_loaded\<close> raises nothing and leaves
  the service with the empty graph and no recorded modification time, and every query
  operation succeeds on the empty vocabulary: \<open>list_concepts\<close> returns no concept and
  total 0, \<open>search_concepts\<close> returns no result, \<open>get_concept_detail\<close> returns "not
  found", and \<open>serialize\<close> returns the serializer's output for the empty graph.
\<close>

theorem missing_file_is_empty_vocabulary:
  assumes "reachable s"
  shows
    "ensure_loaded Absent s = (None, s\<lparr>graph := Some [], last_loaded_mtime := None\<rparr>) \<and>
     list_concepts tv Absent s limit offset lang =
       (Inr ([], 0), s\<lparr>graph := Some [], last_loaded_mtime := None\<rparr>) \<and>
     search_concepts tv Absent s query limit lang =
       (Inr [], s\<lparr>graph := Some [], last_loaded_mtime := None\<rparr>) \<and>
     get_concept_detail tv Absent s concept_iri lang =
       (Inr None, s\<lparr>graph := Some [], last_loaded_mtime := None\<rparr>) \<and>
     serialize ser Absent s ''turtle'' =
       (Inr (ser ''turtle'' [], ''text/turtle''), s\<lparr>graph := Some [], last_loaded_mtime := None\<rparr>)"
proof -
  let ?s' = "s\<lparr>graph := Some [], last_loaded_mtime := None\<rparr>"
  have e: "ensure_loaded Absent s = (None, ?s')"
    by (rule ensure_loaded_absent [OF assms])
  then have g: "get_graph Absent s = (Inr [], ?s')"
    by (simp add: get_graph_def)
  have l: "list_concepts tv Absent s limit offset lang = (Inr ([], 0), ?s')"
    using g by (simp add: list_concepts_def subjects_def py_slice_def)
  have q: "search_concepts tv Absent s query limit lang = (Inr [], ?s')"
    using g by (simp add: search_concepts_def subjects_def)
  have d: "get_concept_detail tv Absent s concept_iri lang = (Inr None, ?s')"
    using g by (simp add: get_concept_detail_def)
  have t: "lower ''turtle'' = ''turtle''" by code_simp
  have z: "serialize ser Absent s ''turtle'' = (Inr (ser ''turtle'' [], ''text/turtle''), ?s')"
    using g by (simp add: serialize_def t Let_def)
  from e l q d z show ?thesis by simp
qed

theorem missing_file_is_empty_vocabulary_witness:
  "reachable (new_service ''en'') \<and>
   ensure_loaded Absent (new_service ''en'') =
     (None, \<lparr>default_language = ''en'', graph = Some [], last_loaded_mtime = None\<rparr>) \<and>
   list_concepts unknown_datatypes Absent (new_service ''en'') 100 0 None =
     (Inr ([], 0), \<lparr>default_language = ''en'', graph = Some [], last_loaded_mtime = None\<rparr>)"
proof -
  have r: "reachable (new_service ''en'')" by (rule reachable.constructed)
  from missing_file_is_empty_vocabulary [OF r, of unknown_datatypes 100 0 None] r
  show ?thesis by (simp add: new_service_def)
qed

text \<open>
  C6, as the code has it. A load of a malformed file raises the parse error and installs
  nothing. Through \<open>_ensure_loaded\<close> (a load is attempted unless a graph is loaded and
  the recorded modification time is the file's) the service is left exactly as it was:
  a previous graph stays current, an unloaded service stays unloaded. Through \<open>reload\<close>
  the graph and the recorded time have been cleared before the parse, so the service
  is left unloaded whether or not it held a graph.
\<close>

theorem malformed_load:
  "(\<not> (graph s \<noteq> None \<and> last_loaded_mtime s = Some m) \<longrightarrow>
      ensure_loaded (Present m Malformed) s = (Some ParseError, s) \<and>
      get_graph (Present m Malformed) s = (Inl ParseError, s)) \<and>
   reload (Present m Malformed) s =
     (Some ParseError, s\<lparr>graph := None, last_loaded_mtime := None\<rparr>)"
  by (auto simp: reload_def get_graph_def ensure_loaded_def getmtime_def)

theorem malformed_load_witness:
  "\<not> (graph \<lparr>default_language = ''en'', graph = Some [], last_loaded_mtime = Some 1\<rparr> \<noteq> None \<and>
      last_loaded_mtime \<lparr>default_language = ''en'', graph = Some [], last_loaded_mtime = Some 1\<rparr>
        = Some 2) \<and>
   ensure_loaded (Present 2 Malformed)
       \<lparr>default_language = ''en'', graph = Some [], last_loaded_mtime = Some 1\<rparr> =
     (Some ParseError, \<lparr>default_language = ''en'', graph = Some [], last_loaded_mtime = Some 1\<rparr>)"
  using malformed_load [of "\<lparr>default_language = ''en'', graph = Some [], last_loaded_mtime = Some 1\<rparr>" 2]
  by simp

text \<open>
  C6, as the claim has it, keeps a previous graph current through \<open>reload\<close> too. A
  service that has loaded a one-triple graph and is then reloaded on a malformed file
  ends with no graph.
\<close>

theorem reload_malformed_discards_snapshot:
  "ensure_loaded (Present 1 (Statements [(URIRef ''c'', RDF_type, SKOS_Concept)]))
       (new_service ''en'') =
     (None, \<lparr>default_language = ''en'',
             graph = Some [(URIRef ''c'', RDF_type, SKOS_Concept)],
             last_loaded_mtime = Some 1\<rparr>) \<and>
   reload (Present 2 Malformed)
       \<lparr>default_language = ''en'',
        graph = Some [(URIRef ''c'', RDF_type, SKOS_Concept)],
        last_loaded_mtime = Some 1\<rparr> =
     (Some ParseError, \<lparr>default_language = ''en'', graph = None, last_loaded_mtime = None\<rparr>)"
  by (simp add: reload_def ensure_loaded_def getmtime_def new_service_def graph_add_def)

section \<open>Listing\<close>

lemma py_slice_window:
  assumes "0 \<le> offset" and "0 \<le> limit"
  shows "py_slice xs offset (offset + limit) = take (nat limit) (drop (nat offset) xs)"
proof (cases "int (length xs) \<le> offset")
  case True
  with assms show ?thesis by (simp add: py_slice_def Let_def min_def)
next
  case False
  show ?thesis
  proof (cases "offset + limit \<le> int (length xs)")
    case True
    with False assms have "nat (offset + limit - offset) = nat limit" by simp
    with True False assms show ?thesis by (simp add: py_slice_def Let_def min_def)
  next
    case over: False
    with False assms have "length (drop (nat offset) xs) \<le> nat limit" by simp
    then have "take (nat limit) (drop (nat offset) xs) = drop (nat offset) xs" by simp
    moreover have "take (nat (int (length xs) - offset)) (drop (nat offset) xs) = drop (nat offset) xs"
      using False assms by simp
    ultimately show ?thesis
      using over False assms by (simp add: py_slice_def Let_def min_def)
  qed
qed

lemma concat_windows: "concat (map (\<lambda>k. take n (drop (k * n) xs)) [0..<K]) = take (K * n) xs"
proof (induction K)
  case 0
  show ?case by simp
next
  case (Suc K)
  have "take (K * n) xs @ take n (drop (K * n) xs) = take (K * n + n) xs"
    by (simp add: take_add)
  with Suc show ?case by (simp add: add.commute)
qed

lemma concat_map_pages: "concat (map (\<lambda>k. map h (w k)) ks) = map h (concat (map w ks))"
  by (induction ks) simp_all

lemma distinct_subjects: "distinct g \<Longrightarrow> distinct (subjects g p ob)"
  unfolding subjects_def
  by (rule distinct_map [THEN iffD2]) (auto simp: inj_on_def)

lemma set_subjects: "set (subjects g p ob) = {c. (c, p, ob) \<in> set g}"
  by (auto simp: subjects_def image_iff)

lemma get_graph_loaded:
  assumes "get_graph f s = (Inr g, s')"
  shows "ensure_loaded f s = (None, s') \<and> graph s' = Some g"
  using assms
  by (auto simp: get_graph_def split: prod.splits option.splits)

lemma get_graph_distinct:
  assumes "reachable s" and "get_graph f s = (Inr g, s')"
  shows "distinct g"
proof -
  from assms(2) have e: "snd (ensure_loaded f s) = s'" and g: "graph s' = Some g"
    by (simp_all add: get_graph_loaded)
  have "loaded_ok (snd (ensure_loaded f s))"
    using assms(1) by (simp add: reachable_loaded_ok loaded_ok_ensure_loaded)
  with e g show ?thesis by (simp add: loaded_ok_def)
qed

lemma list_concepts_page:
  assumes "get_graph f s = (Inr g, s')" and "0 \<le> offset" and "0 \<le> limit"
  shows "list_concepts tv f s limit offset lang =
     (Inr (map (summary_for tv g (or_default lang (default_language s')))
             (take (nat limit) (drop (nat offset) (subjects g RDF_type SKOS_Concept))),
           length (subjects g RDF_type SKOS_Concept)), s')"
proof -
  have "(\<lambda>subject. \<lparr>iri = node_str subject,
           pref_label = get_best_label tv g subject (or_default lang (default_language s')),
           definition_text = get_best_definition tv g subject (or_default lang (default_language s'))\<rparr>)
        = summary_for tv g (or_default lang (default_language s'))"
    by (rule ext) (simp add: summary_for_def get_best_label_def get_best_definition_def)
  with assms show ?thesis
    by (simp add: list_concepts_def Let_def py_slice_window)
qed

text \<open>
  C8. For a loaded graph and a limit of at least 1, \<open>list_concepts\<close> returns as total
  the number of subjects typed \<open>skos:Concept\<close>, whatever the page; the page at an
  offset (from 0 on) is the summaries of the concepts at positions offset up to
  offset + limit of the enumeration; the enumeration lists every concept of the graph
  once; and the pages at offsets 0, limit, 2 limit, ... put one after the other are the
  summaries of the whole enumeration, as soon as the offsets cover its length.
\<close>

theorem list_concepts_pagination:
  assumes "reachable s" and "get_graph f s = (Inr g, s')" and "1 \<le> limit"
  shows
    "(\<forall>offset\<ge>0. list_concepts tv f s limit offset lang =
        (Inr (map (summary_for tv g (or_default lang (default_language s')))
                (take (nat limit) (drop (nat offset) (subjects g RDF_type SKOS_Concept))),
              length (subjects g RDF_type SKOS_Concept)), s')) \<and>
     distinct (subjects g RDF_type SKOS_Concept) \<and>
     set (subjects g RDF_type SKOS_Concept) = {c. (c, RDF_type, SKOS_Concept) \<in> set g} \<and>
     (\<forall>K. int (length (subjects g RDF_type SKOS_Concept)) \<le> int K * limit \<longrightarrow>
        concat (map (\<lambda>k. case fst (list_concepts tv f s limit (int k * limit) lang) of
                           Inl e \<Rightarrow> [] | Inr (page, n) \<Rightarrow> page) [0..<K]) =
        map (summary_for tv g (or_default lang (default_language s')))
          (subjects g RDF_type SKOS_Concept))"
proof -
  let ?cs = "subjects g RDF_type SKOS_Concept"
  let ?summ = "summary_for tv g (or_default lang (default_language s'))"
  from assms(3) have lim: "0 \<le> limit" by simp
  have page: "list_concepts tv f s limit offset lang =
      (Inr (map ?summ (take (nat limit) (drop (nat offset) ?cs)), length ?cs), s')"
    if "0 \<le> offset" for offset
    using assms(2) that lim by (rule list_concepts_page)
  have d: "distinct ?cs"
    using get_graph_distinct [OF assms(1,2)] by (rule distinct_subjects)
  have all: "concat (map (\<lambda>k. case fst (list_concepts tv f s limit (int k * limit) lang) of
                           Inl e \<Rightarrow> [] | Inr (page, n) \<Rightarrow> page) [0..<K]) = map ?summ ?cs"
    if K: "int (length ?cs) \<le> int K * limit" for K
  proof -
    have k: "(case fst (list_concepts tv f s limit (int k * limit) lang) of
                Inl e \<Rightarrow> [] | Inr (page, n) \<Rightarrow> page)
             = map ?summ (take (nat limit) (drop (k * nat limit) ?cs))" for k
    proof -
      have "0 \<le> int k * limit" using lim by simp
      moreover have "nat (int k * limit) = k * nat limit"
        using lim by (simp add: nat_mult_distrib)
      ultimately show ?thesis by (simp add: page)
    qed
    have "length ?cs \<le> K * nat limit"
      using K lim by (metis nat_int nat_mono nat_mult_distrib of_nat_0_le_iff)
    then have "take (K * nat limit) ?cs = ?cs" by simp
    then have "concat (map (\<lambda>k. take (nat limit) (drop (k * nat limit) ?cs)) [0..<K]) = ?cs"
      by (simp add: concat_windows)
    then have "concat (map (\<lambda>k. map ?summ (take (nat limit) (drop (k * nat limit) ?cs))) [0..<K])
               = map ?summ ?cs"
      by (simp add: concat_map_pages)
    then show ?thesis by (simp add: k)
  qed
  from page d all show ?thesis by (simp add: set_subjects)
qed


theorem list_concepts_pagination_witness:
  "reachable (new_service ''en'') \<and>
   get_graph
     (Present 1 (Statements [(URIRef ''a'', RDF_type, SKOS_Concept),
                             (URIRef ''b'', RDF_type, SKOS_Concept),
                             (URIRef ''c'', RDF_type, SKOS_Concept)]))
     (new_service ''en'') =
     (Inr [(URIRef ''a'', RDF_type, SKOS_Concept),
           (URIRef ''b'', RDF_type, SKOS_Concept),
           (URIRef ''c'', RDF_type, SKOS_Concept)],
      \<lparr>default_language = ''en'',
       graph = Some [(URIRef ''a'', RDF_type, SKOS_Concept),
                     (URIRef ''b'', RDF_type, SKOS_Concept),
                     (URIRef ''c'', RDF_type, SKOS_Concept)],
       last_loaded_mtime = Some 1\<rparr>) \<and>
   (1::int) \<le> 2 \<and>
   fst (list_concepts unknown_datatypes
     (Present 1 (Statements [(URIRef ''a'', RDF_type, SKOS_Concept),
                             (URIRef ''b'', RDF_type, SKOS_Concept),
                             (URIRef ''c'', RDF_type, SKOS_Concept)]))
     (new_service ''en'') 2 2 None) =
     Inr ([\<lparr>iri = ''c'', pref_label = None, definition_text = None\<rparr>], 3)"
proof -
  let ?g = "[(URIRef ''a'', RDF_type, SKOS_Concept),
             (URIRef ''b'', RDF_type, SKOS_Concept),
             (URIRef ''c'', RDF_type, SKOS_Concept)]"
  let ?s' = "\<lparr>default_language = ''en'', graph = Some ?g, last_loaded_mtime = Some 1\<rparr>"
  have r: "reachable (new_service ''en'')" by (rule reachable.constructed)
  have h: "get_graph (Present 1 (Statements ?g)) (new_service ''en'') = (Inr ?g, ?s')"
    by (simp add: get_graph_fresh graph_add_def)
  have l: "(1::int) \<le> 2" by simp
  have cs: "subjects ?g RDF_type SKOS_Concept = [URIRef ''a'', URIRef ''b'', URIRef ''c'']"
    by (simp add: subjects_def)
  have sm: "summary_for unknown_datatypes ?g ''en'' (URIRef ''c'') =
      \<lparr>iri = ''c'', pref_label = None, definition_text = None\<rparr>"
    by (simp add: summary_for_def objects_def select_lang_literal_def py_or_def
        RDF_type_def SKOS_prefLabel_def SKOS_definition_def)
  from list_concepts_pagination [OF r h l, of unknown_datatypes None]
  have "list_concepts unknown_datatypes (Present 1 (Statements ?g)) (new_service ''en'') 2 2 None =
      (Inr (map (summary_for unknown_datatypes ?g (or_default None (default_language ?s')))
              (take (nat 2) (drop (nat 2) (subjects ?g RDF_type SKOS_Concept))),
            length (subjects ?g RDF_type SKOS_Concept)), ?s')"
    by simp
  then have "fst (list_concepts unknown_datatypes (Present 1 (Statements ?g)) (new_service ''en'') 2 2 None)
      = Inr ([\<lparr>iri = ''c'', pref_label = None, definition_text = None\<rparr>], 3)"
    by (simp add: cs sm or_default_def)
  with r h l show ?thesis by simp
qed

section \<open>Searching\<close>

lemma match_label_find:
  "match_label lang lower_q labels = map_option node_str (find (label_matches lang lower_q) labels)"
proof (induction labels)
  case Nil
  show ?case by simp
next
  case (Cons label rest)
  then show ?case by (cases label) (simp_all add: label_matches_def)
qed

lemma match_label_Some:
  assumes "match_label lang lower_q labels = Some m"
  shows "\<exists>tag. Literal m tag \<in> set labels \<and> (language tag = None \<or> language tag = Some lang) \<and>
           sublist lower_q (lower m)"
proof -
  from assms obtain l where f: "find (label_matches lang lower_q) labels = Some l"
    and m: "node_str l = m"
    by (auto simp: match_label_find)
  from f have "l \<in> set labels" and "label_matches lang lower_q l"
    by (auto simp: find_Some_iff)
  with m show ?thesis
    by (cases l) (auto simp: label_matches_def)
qed

lemma match_label_None:
  "match_label lang lower_q labels = None \<longleftrightarrow> (\<forall>l \<in> set labels. \<not> label_matches lang lower_q l)"
  by (auto simp: match_label_find find_None_iff)

lemma search_loop_step:
  "search_loop tv g lang lower_q limit (subject # rest) results =
     (let results' = results @ (case search_hit tv g lang lower_q subject of None \<Rightarrow> [] | Some c \<Rightarrow> [c])
      in if limit \<le> int (length results') then results'
         else search_loop tv g lang lower_q limit rest results')"
  by (simp add: search_hit_def get_best_definition_def Let_def split: option.splits)

lemma search_loop_bound:
  assumes "int (length results) < limit"
  shows "int (length (search_loop tv g lang lower_q limit subjects' results)) \<le> limit"
  using assms
proof (induction subjects' arbitrary: results)
  case Nil
  then show ?case by simp
next
  case (Cons subject rest)
  show ?case
  proof (cases "search_hit tv g lang lower_q subject")
    case None
    with Cons show ?thesis by (simp add: search_loop_step del: search_loop.simps)
  next
    case (Some c)
    show ?thesis
    proof (cases "limit \<le> int (length (results @ [c]))")
      case True
      with Cons.prems Some show ?thesis by (simp add: search_loop_step del: search_loop.simps)
    next
      case False
      then have "int (length (results @ [c])) < limit" by simp
      from Cons.IH [OF this] False Some show ?thesis
        by (simp add: search_loop_step del: search_loop.simps)
    qed
  qed
qed

lemma search_loop_members:
  "set (search_loop tv g lang lower_q limit subjects' results)
     \<subseteq> set results \<union> {c. \<exists>subject \<in> set subjects'. search_hit tv g lang lower_q subject = Some c}"
proof (induction subjects' arbitrary: results)
  case Nil
  show ?case by simp
next
  case (Cons subject rest)
  show ?case
  proof (cases "search_hit tv g lang lower_q subject")
    case None
    with Cons [of results] show ?thesis
      by (auto simp: search_loop_step Let_def simp del: search_loop.simps split: if_splits)
  next
    case (Some c)
    with Cons [of "results @ [c]"] show ?thesis
      by (auto simp: search_loop_step Let_def simp del: search_loop.simps split: if_splits)
  qed
qed

lemma search_loop_all:
  assumes "int (length results + length subjects') \<le> limit"
  shows "search_loop tv g lang lower_q limit subjects' results =
         results @ List.map_filter (search_hit tv g lang lower_q) subjects'"
  using assms
proof (induction subjects' arbitrary: results)
  case Nil
  show ?case by (simp add: List.map_filter_simps)
next
  case (Cons subject rest)
  show ?case
  proof (cases "search_hit tv g lang lower_q subject")
    case None
    from Cons.prems have "int (length results + length rest) \<le> limit" by simp
    from Cons.IH [OF this] None Cons.prems show ?thesis
      by (auto simp: search_loop_step List.map_filter_simps simp del: search_loop.simps)
  next
    case (Some c)
    show ?thesis
    proof (cases "limit \<le> int (length (results @ [c]))")
      case True
      from Cons.prems have p: "int (length results) + 1 + int (length rest) \<le> limit" by simp
      from True have t: "limit \<le> int (length results) + 1" by simp
      from p t have "int (length rest) \<le> 0" by linarith
      then have "rest = []" by simp
      with True Some show ?thesis
        by (simp add: search_loop_step List.map_filter_simps del: search_loop.simps)
    next
      case False
      from Cons.prems have "int (length (results @ [c]) + length rest) \<le> limit" by simp
      from Cons.IH [OF this] False Some show ?thesis
        by (simp add: search_loop_step List.map_filter_simps del: search_loop.simps)
    qed
  qed
qed

lemma search_concepts_loaded:
  assumes "get_graph f s = (Inr g, s')"
  shows "search_concepts tv f s query limit lang =
     (Inr (search_loop tv g (or_default lang (default_language s')) (lower query) limit
             (subjects g RDF_type SKOS_Concept) []), s')"
  using assms by (simp add: search_concepts_def Let_def)

lemma search_concepts_at_most_limit:
  assumes "get_graph f s = (Inr g, s')" and "1 \<le> limit"
    and "fst (search_concepts tv f s query limit lang) = Inr results"
  shows "int (length results) \<le> limit"
proof -
  from assms(2) have "int (length ([] :: concept_summary list)) < limit" by simp
  then have "int (length (search_loop tv g (or_default lang (default_language s')) (lower query)
      limit (subjects g RDF_type SKOS_Concept) [])) \<le> limit"
    by (rule search_loop_bound)
  with assms(1,3) show ?thesis
    by (simp add: search_concepts_loaded)
qed

lemma search_concepts_results_match:
  assumes "get_graph f s = (Inr g, s')"
    and "fst (search_concepts tv f s query limit lang) = Inr results" and "c \<in> set results"
  shows "\<exists>subject \<in> set (subjects g RDF_type SKOS_Concept). \<exists>m tag p.
           iri c = node_str subject \<and> p \<in> {SKOS_prefLabel, SKOS_altLabel} \<and>
           (subject, p, Literal m tag) \<in> set g \<and>
           (language tag = None \<or> language tag = Some (or_default lang (default_language s'))) \<and>
           sublist (lower query) (lower m)"
proof -
  let ?L = "or_default lang (default_language s')"
  from assms have "c \<in> set (search_loop tv g ?L (lower query) limit (subjects g RDF_type SKOS_Concept) [])"
    by (simp add: search_concepts_loaded)
  with search_loop_members obtain subject where s: "subject \<in> set (subjects g RDF_type SKOS_Concept)"
    and h: "search_hit tv g ?L (lower query) subject = Some c"
    by fastforce
  from h obtain m where m: "match_label ?L (lower query)
        (objects g subject SKOS_prefLabel @ objects g subject SKOS_altLabel) = Some m"
    and c: "iri c = node_str subject"
    by (auto simp: search_hit_def)
  from match_label_Some [OF m] obtain tag where
    t: "Literal m tag \<in> set (objects g subject SKOS_prefLabel) \<union> set (objects g subject SKOS_altLabel)"
    and l: "language tag = None \<or> language tag = Some ?L" and q: "sublist (lower query) (lower m)"
    by auto
  from t have "\<exists>p. p \<in> {SKOS_prefLabel, SKOS_altLabel} \<and> (subject, p, Literal m tag) \<in> set g"
    by (auto simp: objects_def)
  with s c l q show ?thesis by blast
qed

lemma search_concepts_empty_query:
  assumes "get_graph f s = (Inr g, s')"
    and "int (length (subjects g RDF_type SKOS_Concept)) \<le> limit"
  shows "fst (search_concepts tv f s [] limit lang) =
     Inr (List.map_filter (search_hit tv g (or_default lang (default_language s')) [])
            (subjects g RDF_type SKOS_Concept))"
proof -
  have "lower [] = []" by (simp add: lower_def)
  with search_loop_all [of "[]" "subjects g RDF_type SKOS_Concept" limit] assms show ?thesis
    by (simp add: search_concepts_loaded)
qed

lemma empty_query_matches:
  "label_matches lang [] label \<longleftrightarrow>
     (\<exists>m tag. label = Literal m tag \<and> (language tag = None \<or> language tag = Some lang))"
  by (cases label) (simp_all add: label_matches_def)


lemma lower_a: "lower ''a'' = ''a''" by code_simp
lemma lower_Apple: "lower ''Apple'' = ''apple''" by code_simp
lemma a_in_apple: "sublist ''a'' ''apple''" by code_simp

text \<open>
  C4. The claim: \<open>search_concepts\<close> returns at most \<open>limit\<close> results, every result has a
  \<open>prefLabel\<close> or \<open>altLabel\<close> without language or in the requested language whose
  lowercased text contains the lowercased query, and the empty query matches every
  concept with such a label. The last two parts hold (\<open>search_concepts_results_match\<close>,
  \<open>search_concepts_empty_query\<close>), and so does the bound for a limit of at least 1
  (\<open>search_concepts_at_most_limit\<close>). The loop appends a match first and tests
  \<open>len(results) >= limit\<close> afterwards: with limit 0 and a first concept that matches,
  one result is returned.
\<close>

theorem search_limit_zero_returns_one:
  "fst (search_concepts tv
     (Present 1 (Statements [(URIRef ''c'', RDF_type, SKOS_Concept),
                             (URIRef ''c'', SKOS_prefLabel, Literal ''Apple'' Plain)]))
     (new_service ''en'') ''a'' 0 None) =
   Inr [\<lparr>iri = ''c'', pref_label = Some ''Apple'', definition_text = None\<rparr>]"
  by (simp add: search_concepts_def get_graph_fresh graph_add_def subjects_def objects_def
      or_default_def get_best_definition_def select_lang_literal_def py_or_def
      lower_a lower_Apple a_in_apple Let_def
      RDF_type_def SKOS_Concept_def SKOS_prefLabel_def SKOS_altLabel_def SKOS_definition_def)









section \<open>Importing\<close>




















text \<open>
  The label is the first non-empty cell among \<open>prefLabel\<close>, \<open>label\<close> and \<open>term\<close>,
  trimmed afterwards: a \<open>prefLabel\<close> cell of spaces hides a \<open>label\<close> cell, and the row
  is skipped.
\<close>

lemma blank_prefLabel_hides_label:
  "row_label [''prefLabel'' \<mapsto> ''  '', ''label'' \<mapsto> ''Apple''] = []"
  by code_simp

























end
